theory Spec2Isabelle
  imports Main
begin

section \<open>Strings\<close>

text \<open>
  Go strings are byte sequences; they are modelled as \<open>string\<close> (lists of 8-bit characters),
  so \<open>length\<close> is Go's \<open>len\<close>. The character classes below are the ASCII classes the
  regular expressions of the source name; a byte outside ASCII belongs to none of them.
\<close>

definition lower_letters :: string where
  "lower_letters = ''abcdefghijklmnopqrstuvwxyz''"

definition upper_letters :: string where
  "upper_letters = ''ABCDEFGHIJKLMNOPQRSTUVWXYZ''"

definition digits :: string where
  "digits = ''0123456789''"

text \<open>\<open>strings.ToLower\<close> on ASCII letters; every other byte is kept.\<close>

definition toLowerChar :: "char \<Rightarrow> char" where
  "toLowerChar c = (case map_of (zip upper_letters lower_letters) c of Some l \<Rightarrow> l | None \<Rightarrow> c)"

definition ToLower :: "string \<Rightarrow> string" where
  "ToLower s = map toLowerChar s"

definition HasPrefix :: "string \<Rightarrow> string \<Rightarrow> bool" where
  "HasPrefix s p = (take (length p) s = p)"

definition HasSuffix :: "string \<Rightarrow> string \<Rightarrow> bool" where
  "HasSuffix s p = (length p \<le> length s \<and> drop (length s - length p) s = p)"

definition TrimPrefix :: "string \<Rightarrow> string \<Rightarrow> string" where
  "TrimPrefix s p = (if HasPrefix s p then drop (length p) s else s)"

definition TrimSuffix :: "string \<Rightarrow> string \<Rightarrow> string" where
  "TrimSuffix s p = (if HasSuffix s p then take (length s - length p) s else s)"

section \<open>Package rediskey\<close>

datatype invalid_key =
    KeyEmpty
  | KeyTooLong string
  | KeyInvalidCharacters string
  | KeyDelimiterAtEdge string
  | FragmentContainsDelimiter string

datatype error =
    InvalidRedisKeyError invalid_key
  | ReservedPrefixError string
  | EmptyKeyError
  | EmptyEntityKindError
  | Wrapped string error
  | ErrKeyNotFound
  | RedisError string
  | CodecError string

definition WildcardAnyChar :: string where
  "WildcardAnyChar = ''?''"

definition WildcardAnyString :: string where
  "WildcardAnyString = ''*''"

definition KeyFragmentDelimiter :: string where
  "KeyFragmentDelimiter = '':''"

definition keyMaxLength :: nat where
  "keyMaxLength = 1024"

text \<open>The character class of \<open>redisKeyRegex\<close>: \<open>[a-zA-Z0-9:_\-\*\?\[\]\(\),]\<close>.\<close>

definition allowed_char :: "char \<Rightarrow> bool" where
  "allowed_char c = (c \<in> set (lower_letters @ upper_letters @ digits @ '':_-*?[](),''))"

text \<open>\<open>redisKeyRegex.MatchString\<close>: the whole string is one or more allowed characters.\<close>

definition redisKeyRegex_MatchString :: "string \<Rightarrow> bool" where
  "redisKeyRegex_MatchString s = (s \<noteq> [] \<and> list_all allowed_char s)"

definition Validate :: "string \<Rightarrow> error option" where
  "Validate k =
     (if k = [] then Some (InvalidRedisKeyError KeyEmpty)
      else if length k > keyMaxLength then Some (InvalidRedisKeyError (KeyTooLong k))
      else if \<not> redisKeyRegex_MatchString k then Some (InvalidRedisKeyError (KeyInvalidCharacters k))
      else if HasPrefix k KeyFragmentDelimiter \<or> HasSuffix k KeyFragmentDelimiter
        then Some (InvalidRedisKeyError (KeyDelimiterAtEdge k))
      else None)"

text \<open>
  \<open>Build\<close>: the loop over the keys with its \<open>first\<close> flag and the string builder as
  accumulator.
\<close>

fun Build_loop :: "string list \<Rightarrow> bool \<Rightarrow> string \<Rightarrow> string" where
  "Build_loop [] first acc = acc"
| "Build_loop (k # ks) first acc =
     (if k = [] then Build_loop ks first acc
      else Build_loop ks False ((if first then acc else acc @ KeyFragmentDelimiter) @ k))"

definition Build :: "string list \<Rightarrow> string" where
  "Build keys = Build_loop keys True []"




definition BuildMatchKeyPattern :: "string \<Rightarrow> string \<Rightarrow> string" where
  "BuildMatchKeyPattern baseKey wildcard = baseKey @ KeyFragmentDelimiter @ wildcard"

section \<open>Package keyfactory\<close>

definition ReservedNamespaceDelimiter :: string where
  "ReservedNamespaceDelimiter = ''__''"

definition keyNamespace :: "string \<Rightarrow> string" where
  "keyNamespace ns =
     (if ns = [] then []
      else ReservedNamespaceDelimiter @ ToLower ns @ ReservedNamespaceDelimiter)"

record Key =
  key :: string
  namespace :: string

definition NewKey :: "string \<Rightarrow> string \<Rightarrow> Key" where
  "NewKey k ns =
     \<lparr>key = k,
      namespace = (if \<not> HasPrefix ns ReservedNamespaceDelimiter then keyNamespace ns else ns)\<rparr>"

definition RedisKey :: "Key \<Rightarrow> string" where
  "RedisKey k = Build [namespace k, key k]"

fun validateKeyFragments :: "string list \<Rightarrow> error option" where
  "validateKeyFragments [] = None"
| "validateKeyFragments (keyFragment # rest) =
     (if keyFragment = [] then validateKeyFragments rest
      else if HasPrefix keyFragment ReservedNamespaceDelimiter
        then Some (ReservedPrefixError keyFragment)
      else validateKeyFragments rest)"

fun validateOptionalKeys_loop :: "string list \<Rightarrow> error option" where
  "validateOptionalKeys_loop [] = None"
| "validateOptionalKeys_loop (k # ks) =
     (if k = [] then validateOptionalKeys_loop ks
      else case Validate k of Some e \<Rightarrow> Some e | None \<Rightarrow> validateOptionalKeys_loop ks)"

definition validateOptionalKeys :: "string list \<Rightarrow> error option" where
  "validateOptionalKeys keys =
     (case validateKeyFragments keys of
        Some e \<Rightarrow> Some e
      | None \<Rightarrow> validateOptionalKeys_loop keys)"

definition ValidateKeyFragment :: "string \<Rightarrow> error option" where
  "ValidateKeyFragment f =
     (case validateKeyFragments [f] of
        Some e \<Rightarrow> Some e
      | None \<Rightarrow> Validate f)"

record KeyBuilder =
  b_key :: string
  b_parentKey :: string
  b_wildcard :: string
  b_namespace :: string

definition NewKeyBuilder :: KeyBuilder where
  "NewKeyBuilder = \<lparr>b_key = [], b_parentKey = [], b_wildcard = [], b_namespace = []\<rparr>"

definition NewKeyBuilderWithNamespace :: "string \<Rightarrow> KeyBuilder" where
  "NewKeyBuilderWithNamespace ns =
     \<lparr>b_key = [], b_parentKey = [], b_wildcard = [], b_namespace = ns\<rparr>"

definition WithKey :: "string \<Rightarrow> KeyBuilder \<Rightarrow> KeyBuilder" where
  "WithKey k b = b\<lparr>b_key := k\<rparr>"

definition WithParentKey :: "string \<Rightarrow> KeyBuilder \<Rightarrow> KeyBuilder" where
  "WithParentKey k b = b\<lparr>b_parentKey := k\<rparr>"

definition WithWildcard :: "string \<Rightarrow> KeyBuilder \<Rightarrow> KeyBuilder" where
  "WithWildcard wc b = b\<lparr>b_wildcard := wc\<rparr>"

definition WithNamespace :: "string \<Rightarrow> KeyBuilder \<Rightarrow> KeyBuilder" where
  "WithNamespace ns b = b\<lparr>b_namespace := ns\<rparr>"

text \<open>\<open>KeyBuilder.Reset\<close> clears every field.\<close>

definition Reset :: "KeyBuilder \<Rightarrow> KeyBuilder" where
  "Reset b = b\<lparr>b_key := [], b_parentKey := [], b_wildcard := [], b_namespace := []\<rparr>"

text \<open>\<open>KeyBuilderWithNamespace.Reset\<close> keeps the namespace.\<close>

definition ResetKeepNamespace :: "KeyBuilder \<Rightarrow> KeyBuilder" where
  "ResetKeepNamespace b = b\<lparr>b_key := [], b_parentKey := [], b_wildcard := []\<rparr>"

definition build :: "KeyBuilder \<Rightarrow> error + Key" where
  "build b =
     (case validateOptionalKeys [b_key b, b_parentKey b, b_namespace b] of
        Some e \<Rightarrow> Inl (Wrapped ''keyfactory'' e)
      | None \<Rightarrow>
          (let k = Build [b_parentKey b, b_key b];
               k = (if b_wildcard b \<noteq> [] then BuildMatchKeyPattern k (b_wildcard b) else k)
           in if k = [] then Inl EmptyKeyError
              else Inr (NewKey k (b_namespace b))))"

definition BuildKey :: "KeyBuilder \<Rightarrow> error + Key" where
  "BuildKey b = build b"

text \<open>
  \<open>BuildAndReset\<close> returns the result of \<open>build\<close> together with the builder as the
  deferred reset leaves it: \<open>KeyBuilder.BuildAndReset\<close> resets every field,
  \<open>KeyBuilderWithNamespace.BuildAndReset\<close> keeps the namespace.
\<close>

definition BuildAndReset :: "KeyBuilder \<Rightarrow> (error + Key) \<times> KeyBuilder" where
  "BuildAndReset b = (build b, Reset b)"

definition BuildAndResetWithNamespace :: "KeyBuilder \<Rightarrow> (error + Key) \<times> KeyBuilder" where
  "BuildAndResetWithNamespace b = (build b, ResetKeepNamespace b)"

text \<open>
  \<open>ParseRedisKey\<close> matches \<open>^(?P<namespace>__\w+__)[:]?\<close> against the key.
  \<open>word_char\<close> is the class \<open>\w\<close>. The pattern is anchored, so a match starts with the
  reserved delimiter; the greedy \<open>\w+\<close> takes the longest run of word characters that still
  leaves a closing delimiter inside the run, and \<open>greedy_word_end run n\<close> looks for that
  length from \<open>n\<close> downwards. \<open>namespacePattern_FindStringSubmatch\<close> returns the whole match
  and the namespace group.
\<close>

definition word_char :: "char \<Rightarrow> bool" where
  "word_char c = (c \<in> set (lower_letters @ upper_letters @ digits @ ''_''))"

fun greedy_word_end :: "string \<Rightarrow> nat \<Rightarrow> nat option" where
  "greedy_word_end run 0 = None"
| "greedy_word_end run (Suc n) =
     (if take 2 (drop (Suc n) run) = ReservedNamespaceDelimiter then Some (Suc n)
      else greedy_word_end run n)"

definition namespacePattern_FindStringSubmatch :: "string \<Rightarrow> (string \<times> string) option" where
  "namespacePattern_FindStringSubmatch s =
     (if \<not> HasPrefix s ReservedNamespaceDelimiter then None
      else
        (let run = takeWhile word_char (drop 2 s) in
         case greedy_word_end run (length run - 2) of
           None \<Rightarrow> None
         | Some n \<Rightarrow>
             (let grp = take (n + 4) s;
                  rest = drop (n + 4) s
              in Some (grp @ (if HasPrefix rest '':'' then '':'' else []), grp))))"

definition ParseRedisKey :: "string \<Rightarrow> error + Key" where
  "ParseRedisKey k =
     (case Validate k of
        Some e \<Rightarrow> Inl (Wrapped ''keyfactory: failed to parse redis key'' e)
      | None \<Rightarrow>
          (case namespacePattern_FindStringSubmatch k of
             None \<Rightarrow> Inr (NewKey k [])
           | Some (full, grp) \<Rightarrow>
               (let ns = TrimSuffix (TrimPrefix grp ReservedNamespaceDelimiter)
                           ReservedNamespaceDelimiter
                in Inr (NewKey (TrimPrefix k full) ns))))"

text \<open>\<open>rediskey.Parse\<close> is \<open>strings.Split\<close> at the delimiter.\<close>

fun split_at :: "char \<Rightarrow> string \<Rightarrow> string list" where
  "split_at d [] = [[]]"
| "split_at d (c # cs) =
     (if c = d then [] # split_at d cs
      else (case split_at d cs of [] \<Rightarrow> [[c]] | f # fs \<Rightarrow> (c # f) # fs))"

definition Parse :: "string \<Rightarrow> string list" where
  "Parse k = split_at (CHR '':'') k"

section \<open>The Redis server behind the client\<close>

text \<open>
  The server is outside the repository. It is modelled as a key-value table with the
  commands the client sends: every command sent is appended to the \<open>trace\<close>, and the field
  \<open>refuses\<close> says which commands the server answers with an error (a store failure),
  in which case the table is left as it is. \<open>glob_match\<close> is the matcher of \<open>KEYS\<close> and
  \<open>SCAN\<close> for the wildcards \<open>*\<close> and \<open>?\<close>; every other pattern character stands for itself.
  Expiry times are sent but no time passes in the model.
\<close>

type_synonym bytes = string

datatype redis_cmd =
    SET string bytes int
  | GET string
  | DEL "string list"
  | KEYS string
  | MGET "string list"
  | EXISTS string
  | SCAN nat string int
  | MSET "(string \<times> bytes) list"
  | EXPIRE string int

datatype Event = EntitiesAdded | EntitiesRemoved | EntitiesUpdated | EntitiesFlushed

datatype action = is_Sent: Sent redis_cmd | is_Emitted: Emitted Event "string list"

record world =
  kv :: "(string \<times> bytes) list"
  refuses :: "redis_cmd \<Rightarrow> bool"
  trace :: "action list"

fun glob_match :: "string \<Rightarrow> string \<Rightarrow> bool" where
  "glob_match [] s = (s = [])"
| "glob_match (p # ps) [] = (p = CHR ''*'' \<and> glob_match ps [])"
| "glob_match (p # ps) (c # cs) =
     (if p = CHR ''*'' then glob_match ps (c # cs) \<or> glob_match (p # ps) cs
      else (p = CHR ''?'' \<or> p = c) \<and> glob_match ps cs)"

fun table_put :: "string \<Rightarrow> bytes \<Rightarrow> (string \<times> bytes) list \<Rightarrow> (string \<times> bytes) list" where
  "table_put k v [] = [(k, v)]"
| "table_put k v (p # ps) = (if fst p = k then (k, v) # ps else p # table_put k v ps)"

definition table_del :: "string list \<Rightarrow> (string \<times> bytes) list \<Rightarrow> (string \<times> bytes) list" where
  "table_del ks t = filter (\<lambda>p. fst p \<notin> set ks) t"

definition send :: "redis_cmd \<Rightarrow> world \<Rightarrow> world" where
  "send c w = w\<lparr>trace := trace w @ [Sent c]\<rparr>"

definition refused :: "redis_cmd \<Rightarrow> error" where
  "refused c = RedisError ''command refused''"

definition rs_Set :: "string \<Rightarrow> bytes \<Rightarrow> int \<Rightarrow> world \<Rightarrow> error option \<times> world" where
  "rs_Set k v expiration w =
     (let c = SET k v expiration; w' = send c w in
      if refuses w c then (Some (refused c), w')
      else (None, w'\<lparr>kv := table_put k v (kv w')\<rparr>))"

definition rs_Get :: "string \<Rightarrow> world \<Rightarrow> (error + bytes option) \<times> world" where
  "rs_Get k w =
     (let c = GET k; w' = send c w in
      if refuses w c then (Inl (refused c), w') else (Inr (map_of (kv w) k), w'))"

definition rs_Del :: "string list \<Rightarrow> world \<Rightarrow> error option \<times> world" where
  "rs_Del ks w =
     (let c = DEL ks; w' = send c w in
      if refuses w c then (Some (refused c), w')
      else (None, w'\<lparr>kv := table_del ks (kv w')\<rparr>))"

definition rs_Keys :: "string \<Rightarrow> world \<Rightarrow> (error + string list) \<times> world" where
  "rs_Keys pattern w =
     (let c = KEYS pattern; w' = send c w in
      if refuses w c then (Inl (refused c), w')
      else (Inr (filter (glob_match pattern) (map fst (kv w))), w'))"

definition rs_MGet :: "string list \<Rightarrow> world \<Rightarrow> (error + bytes option list) \<times> world" where
  "rs_MGet ks w =
     (let c = MGET ks; w' = send c w in
      if refuses w c then (Inl (refused c), w') else (Inr (map (map_of (kv w)) ks), w'))"

definition rs_Exists :: "string \<Rightarrow> world \<Rightarrow> (error + int) \<times> world" where
  "rs_Exists k w =
     (let c = EXISTS k; w' = send c w in
      if refuses w c then (Inl (refused c), w')
      else (Inr (if k \<in> set (map fst (kv w)) then 1 else 0), w'))"

text \<open>
  \<open>SCAN\<close> walks the table by position: the cursor is the position reached, a page holds the
  matching keys among the next \<open>count\<close> entries, and the cursor returned is 0 once the table
  is exhausted.
\<close>

definition rs_Scan :: "nat \<Rightarrow> string \<Rightarrow> int \<Rightarrow> world \<Rightarrow> (error + string list \<times> nat) \<times> world" where
  "rs_Scan cursor pattern count w =
     (let c = SCAN cursor pattern count; w' = send c w in
      if refuses w c then (Inl (refused c), w')
      else
        (let ks = map fst (kv w);
             page = take (nat count) (drop cursor ks);
             next = cursor + nat count
         in (Inr (filter (glob_match pattern) page, if next < length ks then next else 0), w')))"

text \<open>
  A pipeline sends its queued commands in order when it is executed; every command is
  answered on its own, and \<open>Exec\<close> reports the first error.
\<close>

fun pipe_Exec :: "redis_cmd list \<Rightarrow> world \<Rightarrow> error option \<times> world" where
  "pipe_Exec [] w = (None, w)"
| "pipe_Exec (c # cs) w =
     (let w' = send c w;
          ok = \<not> refuses w c;
          w'' = (case c of
                   MSET pairs \<Rightarrow> if ok then w'\<lparr>kv := fold (\<lambda>p. table_put (fst p) (snd p)) pairs (kv w')\<rparr> else w'
                 | _ \<Rightarrow> w')
      in case pipe_Exec cs w'' of
           (r, w3) \<Rightarrow> (if ok then r else Some (refused c), w3))"

section \<open>Package datastore\<close>

text \<open>
  A call returns a value, returns an error, or panics. A \<open>*Key\<close> that may be nil is a
  \<open>Key option\<close>; calling \<open>RedisKey\<close> on nil dereferences it, which panics.
\<close>

datatype 'a result = is_Ok: Ok 'a | is_Err: Err error | is_Panic: Panic string

definition nil_dereference :: string where
  "nil_dereference = ''invalid memory address or nil pointer dereference''"

text \<open>The loops that fill \<open>rsKeys[i] = key.RedisKey()\<close>.\<close>

fun RedisKeys :: "Key option list \<Rightarrow> string list option" where
  "RedisKeys [] = Some []"
| "RedisKeys (None # ks) = None"
| "RedisKeys (Some k # ks) = (case RedisKeys ks of None \<Rightarrow> None | Some rs \<Rightarrow> Some (RedisKey k # rs))"

definition Put :: "Key option \<Rightarrow> bytes \<Rightarrow> int \<Rightarrow> world \<Rightarrow> unit result \<times> world" where
  "Put keyp data expiration w =
     (case keyp of
        None \<Rightarrow> (Ok (), w)
      | Some k \<Rightarrow>
          (case rs_Set (RedisKey k) data expiration w of
             (Some e, w') \<Rightarrow> (Err (Wrapped ''datastore: failed to write key'' e), w')
           | (None, w') \<Rightarrow> (Ok (), w')))"

text \<open>\<open>kvPairs\<close> is a Go map: a later entry for the same rendered key replaces the earlier one.\<close>

fun kvPairs :: "string list \<Rightarrow> bytes list \<Rightarrow> (string \<times> bytes) list \<Rightarrow> (string \<times> bytes) list" where
  "kvPairs (k # ks) (d # ds) m = kvPairs ks ds (table_put k d m)"
| "kvPairs _ _ m = m"

definition PutMulti :: "Key option list \<Rightarrow> bytes list \<Rightarrow> int \<Rightarrow> world \<Rightarrow> unit result \<times> world" where
  "PutMulti keys data expiration w =
     (if length keys \<noteq> length data
        then (Err (RedisError ''datastore: key and data slices have different length''), w)
      else if keys = [] then (Ok (), w)
      else
        (case RedisKeys keys of
           None \<Rightarrow> (Panic nil_dereference, w)
         | Some rsKeys \<Rightarrow>
             (let pairs = kvPairs rsKeys data [];
                  queued = MSET pairs #
                    (if expiration \<noteq> 0 then map (\<lambda>p. EXPIRE (fst p) expiration) pairs else [])
              in case pipe_Exec queued w of
                   (Some e, w') \<Rightarrow> (Err (Wrapped ''datastore: failed to write keys'' e), w')
                 | (None, w') \<Rightarrow> (Ok (), w'))))"

definition Delete :: "Key option list \<Rightarrow> world \<Rightarrow> unit result \<times> world" where
  "Delete keys w =
     (if keys = [] then (Ok (), w)
      else
        (case RedisKeys keys of
           None \<Rightarrow> (Panic nil_dereference, w)
         | Some rsKeys \<Rightarrow>
             (case rs_Del rsKeys w of
                (Some e, w') \<Rightarrow> (Err (Wrapped ''datastore: failed to delete keys from redis'' e), w')
              | (None, w') \<Rightarrow> (Ok (), w'))))"

text \<open>The loops that parse the keys the server returned; the first failure ends them.\<close>

fun parse_keys :: "string list \<Rightarrow> error + Key list" where
  "parse_keys [] = Inr []"
| "parse_keys (rsKey # rest) =
     (case ParseRedisKey rsKey of
        Inl e \<Rightarrow> Inl (Wrapped ''datastore: failed to parse redis key'' e)
      | Inr k \<Rightarrow> (case parse_keys rest of Inl e \<Rightarrow> Inl e | Inr ks \<Rightarrow> Inr (k # ks)))"

definition GetKeys :: "Key \<Rightarrow> world \<Rightarrow> Key list result \<times> world" where
  "GetKeys keyMatch w =
     (case rs_Keys (RedisKey keyMatch) w of
        (Inl e, w') \<Rightarrow> (Err (Wrapped ''datastore: failed to retrieve keys from redis'' e), w')
      | (Inr rsKeys, w') \<Rightarrow>
          (case parse_keys rsKeys of
             Inl e \<Rightarrow> (Err e, w')
           | Inr keys \<Rightarrow> (Ok keys, w')))"

definition DeleteMatch :: "Key option \<Rightarrow> world \<Rightarrow> unit result \<times> world" where
  "DeleteMatch keyMatch w =
     (case keyMatch of
        None \<Rightarrow> (Ok (), w)
      | Some km \<Rightarrow>
          (case GetKeys km w of
             (Err e, w') \<Rightarrow> (Err e, w')
           | (Panic m, w') \<Rightarrow> (Panic m, w')
           | (Ok keys, w') \<Rightarrow>
               (if keys = [] then (Ok (), w') else Delete (map Some keys) w')))"

definition Get :: "Key option \<Rightarrow> world \<Rightarrow> bytes result \<times> world" where
  "Get keyp w =
     (case keyp of
        None \<Rightarrow> (Ok [], w)
      | Some k \<Rightarrow>
          (case rs_Get (RedisKey k) w of
             (Inl e, w') \<Rightarrow> (Err (Wrapped ''datastore'' e), w')
           | (Inr None, w') \<Rightarrow> (Err ErrKeyNotFound, w')
           | (Inr (Some data), w') \<Rightarrow> (Ok data, w')))"

definition GetMulti :: "Key option list \<Rightarrow> world \<Rightarrow> bytes list result \<times> world" where
  "GetMulti keys w =
     (if keys = [] then (Ok [], w)
      else
        (case RedisKeys keys of
           None \<Rightarrow> (Panic nil_dereference, w)
         | Some rsKeys \<Rightarrow>
             (case rs_MGet rsKeys w of
                (Inl e, w') \<Rightarrow> (Err (Wrapped ''datastore: failed to retrieve keys'' e), w')
              | (Inr results, w') \<Rightarrow> (Ok (concat (map (\<lambda>r. case r of None \<Rightarrow> [] | Some d \<Rightarrow> [d]) results)), w'))))"

definition GetKeysWithCursor :: "nat \<Rightarrow> int \<Rightarrow> Key \<Rightarrow> world \<Rightarrow> (Key list \<times> nat) result \<times> world" where
  "GetKeysWithCursor cursor limit keyMatch w =
     (let limit = (if limit \<le> 0 \<or> limit > 1000 then 1000 else limit) in
      case rs_Scan cursor (RedisKey keyMatch) limit w of
        (Inl e, w') \<Rightarrow> (Err (Wrapped ''datastore: failed scanning redis for keys'' e), w')
      | (Inr (rsKeys, nextCursor), w') \<Rightarrow>
          (case parse_keys rsKeys of
             Inl e \<Rightarrow> (Err e, w')
           | Inr keys \<Rightarrow> (Ok (keys, nextCursor), w')))"

definition Exists :: "Key option \<Rightarrow> world \<Rightarrow> bool result \<times> world" where
  "Exists keyp w =
     (case keyp of
        None \<Rightarrow> (Ok False, w)
      | Some k \<Rightarrow>
          (case rs_Exists (RedisKey k) w of
             (Inl e, w') \<Rightarrow> (Err (Wrapped ''datastore'' e), w')
           | (Inr n, w') \<Rightarrow> (Ok (n > 0), w')))"

section \<open>Package eventemitter\<close>
















section \<open>Package entitystore\<close>

text \<open>
  The store is generic in the entity type \<open>'e\<close>; the methods the type parameters bring
  (\<open>GetKey\<close>, \<open>MarshalProto\<close>, \<open>UnmarshalProto\<close>) are fields of the store record. An emission
  on one of the four event targets is recorded in the trace of the world, after the
  commands sent before it; what an emission does with the listeners of its target is
  \<open>Emit\<close> of the previous section. The cursor of a scan is a natural number, a limit and
  an expiration are integers.
\<close>

record 'e EntityStore =
  entityKind :: string
  es_namespace :: string
  GetKey :: "'e \<Rightarrow> string"
  MarshalProto :: "'e \<Rightarrow> error + bytes"
  UnmarshalProto :: "bytes \<Rightarrow> error + 'e"

record 'e EntityCursor =
  Cursor :: nat
  Entities :: "'e list"

definition NewEntityStore ::
  "string \<Rightarrow> string \<Rightarrow> ('e \<Rightarrow> string) \<Rightarrow> ('e \<Rightarrow> error + bytes) \<Rightarrow> (bytes \<Rightarrow> error + 'e) \<Rightarrow> error + 'e EntityStore" where
  "NewEntityStore kind ns getKey marshal unmarshal =
     (if kind = [] then Inl EmptyEntityKindError
      else
        (case (if ns \<noteq> [] then ValidateKeyFragment ns else None) of
           Some e \<Rightarrow> Inl e
         | None \<Rightarrow>
             Inr \<lparr>entityKind = kind, es_namespace = ns, GetKey = getKey,
                  MarshalProto = marshal, UnmarshalProto = unmarshal\<rparr>))"

definition es_NewKeyBuilder :: "'e EntityStore \<Rightarrow> KeyBuilder" where
  "es_NewKeyBuilder es = NewKeyBuilderWithNamespace (es_namespace es)"

definition emit :: "Event \<Rightarrow> string list \<Rightarrow> world \<Rightarrow> world" where
  "emit ev keys w = w\<lparr>trace := trace w @ [Emitted ev keys]\<rparr>"

definition flush :: "'e EntityStore \<Rightarrow> world \<Rightarrow> unit result \<times> world" where
  "flush es w =
     (if es_namespace es = [] then (Panic ''flush store called without key namespace set'', w)
      else
        (let kb = WithWildcard WildcardAnyString (es_NewKeyBuilder es) in
         case BuildAndResetWithNamespace kb of
           (Inl e, kb') \<Rightarrow> (Err e, w)
         | (Inr keyMatch, kb') \<Rightarrow>
             (case DeleteMatch (Some keyMatch) w of
                (Err e, w') \<Rightarrow> (Err e, w')
              | (Panic m, w') \<Rightarrow> (Panic m, w')
              | (Ok u, w') \<Rightarrow> (Ok (), emit EntitiesFlushed [] w'))))"

definition Add :: "'e EntityStore \<Rightarrow> 'e \<Rightarrow> int \<Rightarrow> world \<Rightarrow> string result \<times> world" where
  "Add es entity expiration w =
     (let kb = WithKey (GetKey es entity) (es_NewKeyBuilder es) in
      case BuildAndResetWithNamespace kb of
        (Inl e, kb') \<Rightarrow> (Err e, w)
      | (Inr k, kb') \<Rightarrow>
          (case MarshalProto es entity of
             Inl e \<Rightarrow> (Err e, w)
           | Inr data \<Rightarrow>
               (case Put (Some k) data expiration w of
                  (Err e, w') \<Rightarrow> (Err e, w')
                | (Panic m, w') \<Rightarrow> (Panic m, w')
                | (Ok u, w') \<Rightarrow>
                    (Ok (GetKey es entity), emit EntitiesAdded [GetKey es entity] w'))))"

text \<open>
  The loop of \<open>AddBatch\<close>, with the builder it reuses and the three slices it fills as
  accumulators (keys, entity keys, data).
\<close>

fun AddBatch_loop ::
  "'e EntityStore \<Rightarrow> 'e list \<Rightarrow> KeyBuilder \<Rightarrow> Key option list \<times> string list \<times> bytes list \<Rightarrow>
   error + Key option list \<times> string list \<times> bytes list" where
  "AddBatch_loop es [] kb acc = Inr acc"
| "AddBatch_loop es (entity # rest) kb (keys, entityKeys, data) =
     (case BuildAndResetWithNamespace (WithKey (GetKey es entity) kb) of
        (Inl e, kb') \<Rightarrow> Inl e
      | (Inr k, kb') \<Rightarrow>
          (case MarshalProto es entity of
             Inl e \<Rightarrow> Inl (Wrapped ''failed to marshal entity'' e)
           | Inr d \<Rightarrow>
               AddBatch_loop es rest kb'
                 (keys @ [Some k], entityKeys @ [GetKey es entity], data @ [d])))"

definition AddBatch :: "'e EntityStore \<Rightarrow> 'e list \<Rightarrow> int \<Rightarrow> world \<Rightarrow> string list result \<times> world" where
  "AddBatch es entities expiration w =
     (if entities = [] then (Ok [], w)
      else
        (case AddBatch_loop es entities (es_NewKeyBuilder es) ([], [], []) of
           Inl e \<Rightarrow> (Err e, w)
         | Inr (keys, entityKeys, data) \<Rightarrow>
             (case PutMulti keys data expiration w of
                (Err e, w') \<Rightarrow> (Err e, w')
              | (Panic m, w') \<Rightarrow> (Panic m, w')
              | (Ok u, w') \<Rightarrow> (Ok entityKeys, emit EntitiesAdded entityKeys w'))))"

definition Remove :: "'e EntityStore \<Rightarrow> string \<Rightarrow> world \<Rightarrow> unit result \<times> world" where
  "Remove es entityKey w =
     (if entityKey = [] then (Ok (), w)
      else
        (let kb = WithKey entityKey (es_NewKeyBuilder es) in
         case BuildAndResetWithNamespace kb of
           (Inl e, kb') \<Rightarrow> (Err e, w)
         | (Inr k, kb') \<Rightarrow>
             (case Delete [Some k] w of
                (Err e, w') \<Rightarrow> (Err e, w')
              | (Panic m, w') \<Rightarrow> (Panic m, w')
              | (Ok u, w') \<Rightarrow> (Ok (), emit EntitiesRemoved [entityKey] w'))))"

text \<open>The loop of \<open>RemoveByKeys\<close>.\<close>

fun RemoveByKeys_loop :: "string list \<Rightarrow> KeyBuilder \<Rightarrow> Key option list \<Rightarrow> error + Key option list" where
  "RemoveByKeys_loop [] kb keys = Inr keys"
| "RemoveByKeys_loop (eKey # rest) kb keys =
     (case BuildAndResetWithNamespace (WithKey eKey kb) of
        (Inl e, kb') \<Rightarrow> Inl e
      | (Inr k, kb') \<Rightarrow> RemoveByKeys_loop rest kb' (keys @ [Some k]))"

definition RemoveByKeys :: "'e EntityStore \<Rightarrow> string list \<Rightarrow> world \<Rightarrow> unit result \<times> world" where
  "RemoveByKeys es entityKeys w =
     (if entityKeys = [] then (Ok (), w)
      else
        (case RemoveByKeys_loop entityKeys (es_NewKeyBuilder es) [] of
           Inl e \<Rightarrow> (Err e, w)
         | Inr keys \<Rightarrow>
             (case Delete keys w of
                (Err e, w') \<Rightarrow> (Err e, w')
              | (Panic m, w') \<Rightarrow> (Panic m, w')
              | (Ok u, w') \<Rightarrow> (Ok (), emit EntitiesRemoved entityKeys w'))))"

text \<open>The builder of the scope operations: parent key, entity kind, any-string wildcard.\<close>

definition scope_builder :: "'e EntityStore \<Rightarrow> string \<Rightarrow> KeyBuilder" where
  "scope_builder es parentKey =
     WithWildcard WildcardAnyString
       (WithKey (entityKind es) (WithParentKey parentKey (es_NewKeyBuilder es)))"

definition RemoveAll :: "'e EntityStore \<Rightarrow> string \<Rightarrow> world \<Rightarrow> unit result \<times> world" where
  "RemoveAll es parentKey w =
     (case BuildAndResetWithNamespace (scope_builder es parentKey) of
        (Inl e, kb') \<Rightarrow> (Err e, w)
      | (Inr keyMatch, kb') \<Rightarrow>
          (case GetKeys keyMatch w of
             (Err e, w') \<Rightarrow> (Err e, w')
           | (Panic m, w') \<Rightarrow> (Panic m, w')
           | (Ok keys, w') \<Rightarrow>
               (if keys = [] then (Ok (), w')
                else
                  (case Delete (map Some keys) w' of
                     (Err e, w'') \<Rightarrow> (Err e, w'')
                   | (Panic m, w'') \<Rightarrow> (Panic m, w'')
                   | (Ok u, w'') \<Rightarrow> (Ok (), emit EntitiesRemoved (map key keys) w'')))))"

text \<open>The decoding loops: \<open>UnmarshalProto\<close> on each payload, the first failure ends them.\<close>

fun unmarshal_all :: "'e EntityStore \<Rightarrow> bytes list \<Rightarrow> error + 'e list" where
  "unmarshal_all es [] = Inr []"
| "unmarshal_all es (d # ds) =
     (case UnmarshalProto es d of
        Inl e \<Rightarrow> Inl e
      | Inr x \<Rightarrow> (case unmarshal_all es ds of Inl e \<Rightarrow> Inl e | Inr xs \<Rightarrow> Inr (x # xs)))"

definition es_Get :: "'e EntityStore \<Rightarrow> string \<Rightarrow> world \<Rightarrow> 'e option result \<times> world" where
  "es_Get es entityKey w =
     (if entityKey = [] then (Ok None, w)
      else
        (let kb = WithKey entityKey (es_NewKeyBuilder es) in
         case BuildAndResetWithNamespace kb of
           (Inl e, kb') \<Rightarrow> (Err e, w)
         | (Inr k, kb') \<Rightarrow>
             (case Get (Some k) w of
                (Err e, w') \<Rightarrow> (Err e, w')
              | (Panic m, w') \<Rightarrow> (Panic m, w')
              | (Ok data, w') \<Rightarrow>
                  (case UnmarshalProto es data of
                     Inl e \<Rightarrow> (Err e, w')
                   | Inr x \<Rightarrow> (Ok (Some x), w')))))"

text \<open>
  The loop of \<open>GetByKeys\<close>: an empty entity key is skipped by \<open>continue\<close>, which leaves
  its slot of the pre-allocated \<open>keys\<close> slice nil.
\<close>

fun GetByKeys_loop :: "string list \<Rightarrow> KeyBuilder \<Rightarrow> Key option list \<Rightarrow> error + Key option list" where
  "GetByKeys_loop [] kb keys = Inr keys"
| "GetByKeys_loop (eKey # rest) kb keys =
     (if eKey = [] then GetByKeys_loop rest kb (keys @ [None])
      else
        (case BuildAndResetWithNamespace (WithKey eKey kb) of
           (Inl e, kb') \<Rightarrow> Inl e
         | (Inr k, kb') \<Rightarrow> GetByKeys_loop rest kb' (keys @ [Some k])))"

definition GetByKeys :: "'e EntityStore \<Rightarrow> string list \<Rightarrow> world \<Rightarrow> 'e list result \<times> world" where
  "GetByKeys es entityKeys w =
     (if entityKeys = [] then (Ok [], w)
      else
        (case GetByKeys_loop entityKeys (es_NewKeyBuilder es) [] of
           Inl e \<Rightarrow> (Err e, w)
         | Inr keys \<Rightarrow>
             (case GetMulti keys w of
                (Err e, w') \<Rightarrow> (Err e, w')
              | (Panic m, w') \<Rightarrow> (Panic m, w')
              | (Ok data, w') \<Rightarrow>
                  (case unmarshal_all es data of
                     Inl e \<Rightarrow> (Err e, w')
                   | Inr entities \<Rightarrow> (Ok entities, w')))))"

definition GetWithPagination ::
  "'e EntityStore \<Rightarrow> nat \<Rightarrow> int \<Rightarrow> string \<Rightarrow> world \<Rightarrow> 'e EntityCursor result \<times> world" where
  "GetWithPagination es cursor limit parentKey w =
     (let limit = (if limit \<le> 0 \<or> limit \<ge> 1000 then 1000 else limit) in
      case BuildAndResetWithNamespace (scope_builder es parentKey) of
        (Inl e, kb') \<Rightarrow> (Err e, w)
      | (Inr keyMatch, kb') \<Rightarrow>
          (case GetKeysWithCursor cursor limit keyMatch w of
             (Err e, w') \<Rightarrow> (Err e, w')
           | (Panic m, w') \<Rightarrow> (Panic m, w')
           | (Ok (keys, nextCursor), w') \<Rightarrow>
               (if keys = [] then (Ok \<lparr>Cursor = nextCursor, Entities = []\<rparr>, w')
                else
                  (case GetMulti (map Some keys) w' of
                     (Err e, w'') \<Rightarrow> (Err e, w'')
                   | (Panic m, w'') \<Rightarrow> (Panic m, w'')
                   | (Ok data, w'') \<Rightarrow>
                       (case unmarshal_all es data of
                          Inl e \<Rightarrow> (Err e, w'')
                        | Inr entities \<Rightarrow>
                            (Ok \<lparr>Cursor = nextCursor, Entities = entities\<rparr>, w''))))))"

definition GetAll :: "'e EntityStore \<Rightarrow> string \<Rightarrow> world \<Rightarrow> 'e list result \<times> world" where
  "GetAll es parentKey w =
     (case BuildAndResetWithNamespace (scope_builder es parentKey) of
        (Inl e, kb') \<Rightarrow> (Err e, w)
      | (Inr keyMatch, kb') \<Rightarrow>
          (case GetKeys keyMatch w of
             (Err e, w') \<Rightarrow> (Err e, w')
           | (Panic m, w') \<Rightarrow> (Panic m, w')
           | (Ok keys, w') \<Rightarrow>
               (case GetMulti (map Some keys) w' of
                  (Err e, w'') \<Rightarrow> (Err e, w'')
                | (Panic m, w'') \<Rightarrow> (Panic m, w'')
                | (Ok data, w'') \<Rightarrow>
                    (case unmarshal_all es data of
                       Inl e \<Rightarrow> (Err e, w'')
                     | Inr entities \<Rightarrow> (Ok entities, w'')))))"

definition es_Exists :: "'e EntityStore \<Rightarrow> string \<Rightarrow> world \<Rightarrow> bool result \<times> world" where
  "es_Exists es entityKey w =
     (if entityKey = [] then (Ok False, w)
      else
        (let kb = WithKey entityKey (es_NewKeyBuilder es) in
         case BuildAndResetWithNamespace kb of
           (Inl e, kb') \<Rightarrow> (Err e, w)
         | (Inr k, kb') \<Rightarrow>
             (case Exists (Some k) w of
                (Err e, w') \<Rightarrow> (Err e, w')
              | (Panic m, w') \<Rightarrow> (Panic m, w')
              | (Ok b, w') \<Rightarrow> (Ok b, w'))))"

section \<open>Vocabulary for the statements about the store\<close>

text \<open>
  \<open>stored_as es k\<close> is the Redis key under which the store keeps the entity key \<open>k\<close>:
  the key rendered under the store's namespace. \<open>no_event w w'\<close> says that the trace of
  \<open>w'\<close> extends the trace of \<open>w\<close> by commands only: nothing was emitted in between.
\<close>

definition stored_as :: "'e EntityStore \<Rightarrow> string \<Rightarrow> string" where
  "stored_as es k = RedisKey (NewKey k (es_namespace es))"

definition no_event :: "world \<Rightarrow> world \<Rightarrow> bool" where
  "no_event w w' =
     (take (length (trace w)) (trace w') = trace w \<and>
      list_all is_Sent (drop (length (trace w)) (trace w')))"

text \<open>
  \<open>wrote_then_emitted w w' cmds ev keys\<close> says that between \<open>w\<close> and \<open>w'\<close> the commands
  \<open>cmds\<close> were sent, in this order, none of them was refused, and after them the event
  \<open>ev\<close> was emitted once with \<open>keys\<close>; nothing else happened.
\<close>

definition wrote_then_emitted ::
  "world \<Rightarrow> world \<Rightarrow> redis_cmd list \<Rightarrow> Event \<Rightarrow> string list \<Rightarrow> bool" where
  "wrote_then_emitted w w' cmds ev keys =
     (cmds \<noteq> [] \<and> list_all (\<lambda>c. \<not> refuses w c) cmds \<and>
      trace w' = trace w @ map Sent cmds @ [Emitted ev keys])"

text \<open>
  An entity fails in a batch when the store cannot build its key or cannot serialise it.
\<close>

definition entity_fails :: "'e EntityStore \<Rightarrow> 'e \<Rightarrow> bool" where
  "entity_fails es entity =
     (isl (fst (BuildAndResetWithNamespace (WithKey (GetKey es entity) (es_NewKeyBuilder es)))) \<or>
      isl (MarshalProto es entity))"



text \<open>A string without the wildcard characters of a glob pattern.\<close>

definition glob_literal :: "string \<Rightarrow> bool" where
  "glob_literal s = list_all (\<lambda>c. c \<noteq> CHR ''*'' \<and> c \<noteq> CHR ''?'') s"

text \<open>The \<open>SCAN\<close> commands of a trace, with their cursor, pattern and count.\<close>

fun scans :: "action list \<Rightarrow> (nat \<times> string \<times> int) list" where
  "scans [] = []"
| "scans (Sent (SCAN c p n) # as) = (c, p, n) # scans as"
| "scans (a # as) = scans as"

text \<open>
  Example values: a store of strings under the namespace \<open>ns\<close>, whose entities are their
  own key and payload, and a server with an empty table that refuses nothing.
\<close>

definition example_store :: "string EntityStore" where
  "example_store =
     \<lparr>entityKind = ''user'', es_namespace = ''ns'', GetKey = (\<lambda>e. e),
      MarshalProto = (\<lambda>e. Inr e), UnmarshalProto = (\<lambda>d. Inr d)\<rparr>"

definition empty_world :: world where
  "empty_world = \<lparr>kv = [], refuses = (\<lambda>c. False), trace = []\<rparr>"

section \<open>The specification's reading of key construction\<close>



section \<open>Evaluation rules\<close>

lemmas string_eval =
  lower_letters_def upper_letters_def digits_def toLowerChar_def ToLower_def
  HasPrefix_def HasSuffix_def TrimPrefix_def TrimSuffix_def

lemmas key_eval =
  string_eval KeyFragmentDelimiter_def keyMaxLength_def allowed_char_def
  redisKeyRegex_MatchString_def Validate_def Build_def BuildMatchKeyPattern_def
  ReservedNamespaceDelimiter_def keyNamespace_def NewKey_def RedisKey_def
  validateOptionalKeys_def ValidateKeyFragment_def NewKeyBuilder_def
  NewKeyBuilderWithNamespace_def WithKey_def WithParentKey_def WithWildcard_def
  WithNamespace_def Reset_def ResetKeepNamespace_def build_def BuildKey_def
  BuildAndReset_def BuildAndResetWithNamespace_def WildcardAnyChar_def WildcardAnyString_def
  word_char_def namespacePattern_FindStringSubmatch_def ParseRedisKey_def Parse_def

lemmas store_eval =
  key_eval example_store_def empty_world_def es_NewKeyBuilder_def emit_def send_def refused_def
  rs_Set_def rs_Get_def rs_Del_def rs_Keys_def rs_MGet_def rs_Exists_def rs_Scan_def
  Put_def PutMulti_def Delete_def GetKeys_def DeleteMatch_def Get_def GetMulti_def
  GetKeysWithCursor_def Exists_def table_del_def nil_dereference_def scope_builder_def
  flush_def Add_def AddBatch_def Remove_def RemoveByKeys_def RemoveAll_def es_Get_def
  GetByKeys_def GetWithPagination_def GetAll_def es_Exists_def stored_as_def no_event_def
  entity_fails_def wrote_then_emitted_def

section \<open>Strings and character classes\<close>

lemma HasPrefix_single: "HasPrefix s [c] \<longleftrightarrow> s \<noteq> [] \<and> hd s = c"
  by (cases s) (auto simp: HasPrefix_def)

lemma HasSuffix_single: "HasSuffix s [c] \<longleftrightarrow> s \<noteq> [] \<and> last s = c"
proof (cases s rule: rev_cases)
  case Nil
  then show ?thesis by (simp add: HasSuffix_def)
next
  case (snoc ys y)
  then show ?thesis by (auto simp: HasSuffix_def)
qed

lemma TrimPrefix_append: "TrimPrefix (p @ s) p = s"
  by (simp add: TrimPrefix_def HasPrefix_def)

lemma TrimSuffix_append: "TrimSuffix (s @ p) p = s"
  by (simp add: TrimSuffix_def HasSuffix_def)

lemma ToLower_Nil_iff: "ToLower s = [] \<longleftrightarrow> s = []"
  by (simp add: ToLower_def)

lemma toLowerChar_underscore: "toLowerChar c = CHR ''_'' \<longleftrightarrow> c = CHR ''_''"
  by (auto simp: toLowerChar_def lower_letters_def upper_letters_def split: if_splits)

lemma toLowerChar_idem: "toLowerChar (toLowerChar c) = toLowerChar c"
  by (auto simp: toLowerChar_def lower_letters_def upper_letters_def split: if_splits)

lemma ToLower_idem: "ToLower (ToLower s) = ToLower s"
  by (simp add: ToLower_def toLowerChar_idem)

lemma word_char_toLowerChar: "word_char c \<Longrightarrow> word_char (toLowerChar c)"
  by (auto simp: word_char_def toLowerChar_def lower_letters_def upper_letters_def digits_def)

lemma list_all_word_ToLower: "list_all word_char s \<Longrightarrow> list_all word_char (ToLower s)"
  by (simp add: ToLower_def list_all_iff word_char_toLowerChar)

lemma word_char_allowed: "word_char c \<Longrightarrow> allowed_char c"
  by (auto simp: word_char_def allowed_char_def)

lemma word_char_delimiter: "\<not> word_char (CHR '':'')"
  by (simp add: word_char_def lower_letters_def upper_letters_def digits_def)

lemma word_char_underscore: "word_char (CHR ''_'')"
  by (simp add: word_char_def)

lemma allowed_delimiter: "allowed_char (CHR '':'')"
  by (simp add: allowed_char_def)

lemma allowed_wildcards: "allowed_char (CHR ''?'')" "allowed_char (CHR ''*'')"
  by (simp_all add: allowed_char_def)

lemma HasPrefix_ToLower_reserved:
  "HasPrefix (ToLower ns) ReservedNamespaceDelimiter = HasPrefix ns ReservedNamespaceDelimiter"
  by (cases ns; cases "tl ns")
     (auto simp: HasPrefix_def ToLower_def ReservedNamespaceDelimiter_def toLowerChar_underscore)

section \<open>Key construction\<close>




lemma Build_pair:
  "Build [p, k] = (if p = [] then k else if k = [] then p else p @ KeyFragmentDelimiter @ k)"
  by (simp add: Build_def)




section \<open>The key builder\<close>

lemma Validate_None_iff:
  "Validate k = None \<longleftrightarrow>
     k \<noteq> [] \<and> length k \<le> keyMaxLength \<and> list_all allowed_char k \<and>
     \<not> HasPrefix k KeyFragmentDelimiter \<and> \<not> HasSuffix k KeyFragmentDelimiter"
  by (auto simp: Validate_def redisKeyRegex_MatchString_def)

lemma Validate_too_long:
  "keyMaxLength < length k \<Longrightarrow> Validate k = Some (InvalidRedisKeyError (KeyTooLong k))"
  by (auto simp: Validate_def)

lemma ValidateKeyFragment_None_iff:
  "ValidateKeyFragment f = None \<longleftrightarrow>
     \<not> HasPrefix f ReservedNamespaceDelimiter \<and> Validate f = None"
  by (auto simp: ValidateKeyFragment_def Validate_def split: option.splits)

lemma validateOptionalKeys3:
  "validateOptionalKeys [a, b, c] = None \<longleftrightarrow>
     (a = [] \<or> (\<not> HasPrefix a ReservedNamespaceDelimiter \<and> Validate a = None)) \<and>
     (b = [] \<or> (\<not> HasPrefix b ReservedNamespaceDelimiter \<and> Validate b = None)) \<and>
     (c = [] \<or> (\<not> HasPrefix c ReservedNamespaceDelimiter \<and> Validate c = None))"
  by (auto simp: validateOptionalKeys_def split: option.splits if_splits)

lemma build_Inr_iff:
  "build b = Inr k \<longleftrightarrow>
     validateOptionalKeys [b_key b, b_parentKey b, b_namespace b] = None \<and>
     (b_key b \<noteq> [] \<or> b_parentKey b \<noteq> [] \<or> b_wildcard b \<noteq> []) \<and>
     k = NewKey (Build [b_parentKey b, b_key b] @
                 (if b_wildcard b \<noteq> [] then KeyFragmentDelimiter @ b_wildcard b else []))
               (b_namespace b)"
  by (auto simp: build_def Let_def BuildMatchKeyPattern_def Build_pair KeyFragmentDelimiter_def
      split: option.splits)

lemma key_NewKey: "key (NewKey k ns) = k"
  by (simp add: NewKey_def)

lemma reserved_prefix_append:
  "p \<noteq> [] \<Longrightarrow> \<not> HasPrefix p ReservedNamespaceDelimiter \<Longrightarrow>
   \<not> HasPrefix (p @ CHR '':'' # r) ReservedNamespaceDelimiter"
  by (cases p; cases "tl p") (auto simp: HasPrefix_def ReservedNamespaceDelimiter_def)

lemma reserved_prefix_wildcard_only:
  "\<not> HasPrefix (CHR '':'' # r) ReservedNamespaceDelimiter"
  by (simp add: HasPrefix_def ReservedNamespaceDelimiter_def)

lemma build_body_invariants:
  assumes ok: "build b = Inr k"
    and wc: "b_wildcard b = [] \<or> b_wildcard b = WildcardAnyChar \<or> b_wildcard b = WildcardAnyString"
  shows "key k \<noteq> []"
    and "length (key k) \<le> 2 * keyMaxLength + 3"
    and "list_all allowed_char (key k)"
    and "\<not> HasSuffix (key k) KeyFragmentDelimiter"
    and "\<not> HasPrefix (key k) ReservedNamespaceDelimiter"
    and "b_key b = [] \<and> b_parentKey b = [] \<or> \<not> HasPrefix (key k) KeyFragmentDelimiter"
proof -
  from ok have v: "validateOptionalKeys [b_key b, b_parentKey b, b_namespace b] = None"
    and ne: "b_key b \<noteq> [] \<or> b_parentKey b \<noteq> [] \<or> b_wildcard b \<noteq> []"
    and k: "key k = Build [b_parentKey b, b_key b] @
                 (if b_wildcard b \<noteq> [] then KeyFragmentDelimiter @ b_wildcard b else [])"
    by (simp_all add: build_Inr_iff key_NewKey)
  from v have kk: "b_key b = [] \<or>
      (\<not> HasPrefix (b_key b) ReservedNamespaceDelimiter \<and> Validate (b_key b) = None)"
    and pp: "b_parentKey b = [] \<or>
      (\<not> HasPrefix (b_parentKey b) ReservedNamespaceDelimiter \<and> Validate (b_parentKey b) = None)"
    by (simp_all add: validateOptionalKeys3)
  show "key k \<noteq> []"
    using ne k by (auto simp: Build_pair KeyFragmentDelimiter_def)
  show "length (key k) \<le> 2 * keyMaxLength + 3"
    using kk pp wc k
    by (auto simp: Build_pair Validate_None_iff KeyFragmentDelimiter_def WildcardAnyChar_def
        WildcardAnyString_def)
  show "list_all allowed_char (key k)"
    using kk pp wc k allowed_delimiter allowed_wildcards
    by (auto simp: Build_pair Validate_None_iff KeyFragmentDelimiter_def WildcardAnyChar_def
        WildcardAnyString_def)
  show "\<not> HasSuffix (key k) KeyFragmentDelimiter"
    using kk pp wc k ne
    by (auto simp: Build_pair Validate_None_iff KeyFragmentDelimiter_def WildcardAnyChar_def
        WildcardAnyString_def HasSuffix_single)
  show "\<not> HasPrefix (key k) ReservedNamespaceDelimiter"
    using kk pp wc k ne reserved_prefix_append reserved_prefix_wildcard_only
    by (auto simp: Build_pair KeyFragmentDelimiter_def WildcardAnyChar_def WildcardAnyString_def)
  show "b_key b = [] \<and> b_parentKey b = [] \<or> \<not> HasPrefix (key k) KeyFragmentDelimiter"
    using kk pp wc k
    by (auto simp: Build_pair Validate_None_iff KeyFragmentDelimiter_def WildcardAnyChar_def
        WildcardAnyString_def HasPrefix_single)
qed

lemma Validate_replicate_a:
  "0 < n \<Longrightarrow> n \<le> 1024 \<Longrightarrow> Validate (replicate n (CHR ''a'')) = None"
  by (cases n)
     (auto simp: Validate_None_iff keyMaxLength_def list_all_iff allowed_char_def
       lower_letters_def HasPrefix_single HasSuffix_single KeyFragmentDelimiter_def)

lemma reserved_replicate_a:
  "\<not> HasPrefix (replicate n (CHR ''a'')) ReservedNamespaceDelimiter"
  by (cases n) (auto simp: HasPrefix_def ReservedNamespaceDelimiter_def)

text \<open>
  C3, as the claim states it, fails. The body of a built key is not validated as a whole:
  only the key and the parent key are, each on its own, and only their first characters are
  compared with the reserved token. A key \<open>a:__b\<close> builds, and its second fragment begins
  with the reserved token; a key and a parent key of 1024 characters each build to a body
  of 2049 characters.
\<close>

theorem key_body_counterexample:
  "BuildKey (WithKey ''a:__b'' NewKeyBuilder) = Inr \<lparr>key = ''a:__b'', namespace = []\<rparr> \<and>
   Parse ''a:__b'' = [''a'', ''__b''] \<and> HasPrefix ''__b'' ReservedNamespaceDelimiter \<and>
   BuildKey (WithParentKey (replicate 1024 (CHR ''a''))
              (WithKey (replicate 1024 (CHR ''a'')) NewKeyBuilder)) =
     Inr \<lparr>key = replicate 1024 (CHR ''a'') @ '':'' @ replicate 1024 (CHR ''a''), namespace = []\<rparr> \<and>
   keyMaxLength < length (replicate 1024 (CHR ''a'') @ '':'' @ replicate 1024 (CHR ''a''))"
proof -
  have short: "BuildKey (WithKey ''a:__b'' NewKeyBuilder) = Inr \<lparr>key = ''a:__b'', namespace = []\<rparr> \<and>
      Parse ''a:__b'' = [''a'', ''__b''] \<and> HasPrefix ''__b'' ReservedNamespaceDelimiter"
    by (simp add: key_eval)
  have long: "BuildKey (WithParentKey (replicate 1024 (CHR ''a''))
              (WithKey (replicate 1024 (CHR ''a'')) NewKeyBuilder)) =
     Inr \<lparr>key = replicate 1024 (CHR ''a'') @ '':'' @ replicate 1024 (CHR ''a''), namespace = []\<rparr>"
    by (simp add: BuildKey_def build_Inr_iff validateOptionalKeys3 WithParentKey_def WithKey_def
        NewKeyBuilder_def Validate_replicate_a reserved_replicate_a Build_pair NewKey_def
        keyNamespace_def HasPrefix_def ReservedNamespaceDelimiter_def KeyFragmentDelimiter_def)
  have "keyMaxLength < length (replicate 1024 (CHR ''a'') @ '':'' @ replicate 1024 (CHR ''a''))"
    by (simp add: keyMaxLength_def)
  with short long show ?thesis by blast
qed

text \<open>
  C3, amended. For every key returned successfully by \<open>Build\<close> or by either
  \<open>BuildAndReset\<close>, from a builder whose wildcard is unset or one of the two wildcard
  constants: the key body is non-empty, is at most \<open>2 * 1024 + 3\<close> characters long,
  contains only allowed characters, does not end with the delimiter, does not begin with
  the reserved token, and does not start with the delimiter when the key or the parent key
  is set.
\<close>

theorem key_body_invariants:
  assumes "r = BuildKey b \<or> r = fst (BuildAndReset b) \<or> r = fst (BuildAndResetWithNamespace b)"
    and "r = Inr k"
    and "b_wildcard b = [] \<or> b_wildcard b = WildcardAnyChar \<or> b_wildcard b = WildcardAnyString"
  shows "key k \<noteq> [] \<and>
         length (key k) \<le> 2 * keyMaxLength + 3 \<and>
         list_all allowed_char (key k) \<and>
         \<not> HasSuffix (key k) KeyFragmentDelimiter \<and>
         \<not> HasPrefix (key k) ReservedNamespaceDelimiter \<and>
         (b_key b = [] \<and> b_parentKey b = [] \<or> \<not> HasPrefix (key k) KeyFragmentDelimiter)"
proof -
  from assms(1,2) have "build b = Inr k"
    by (auto simp: BuildKey_def BuildAndReset_def BuildAndResetWithNamespace_def)
  from build_body_invariants [OF this assms(3)] show ?thesis by blast
qed

theorem key_body_invariants_witness:
  "fst (BuildAndResetWithNamespace
         (WithWildcard WildcardAnyString
           (WithKey ''user'' (WithParentKey ''tenant:t1'' (NewKeyBuilderWithNamespace ''App'')))))
     = Inr \<lparr>key = ''tenant:t1:user:*'', namespace = ''__app__''\<rparr> \<and>
   length ''tenant:t1:user:*'' \<le> 2 * keyMaxLength + 3 \<and>
   list_all allowed_char ''tenant:t1:user:*'' \<and>
   \<not> HasSuffix ''tenant:t1:user:*'' KeyFragmentDelimiter \<and>
   \<not> HasPrefix ''tenant:t1:user:*'' ReservedNamespaceDelimiter \<and>
   \<not> HasPrefix ''tenant:t1:user:*'' KeyFragmentDelimiter"
proof -
  let ?b = "WithWildcard WildcardAnyString
             (WithKey ''user'' (WithParentKey ''tenant:t1'' (NewKeyBuilderWithNamespace ''App'')))"
  let ?k = "\<lparr>key = ''tenant:t1:user:*'', namespace = ''__app__''\<rparr>"
  have r: "fst (BuildAndResetWithNamespace ?b) = Inr ?k"
    by (simp add: key_eval)
  have w: "b_wildcard ?b = [] \<or> b_wildcard ?b = WildcardAnyChar \<or> b_wildcard ?b = WildcardAnyString"
    by (simp add: WithWildcard_def)
  have kp: "b_key ?b \<noteq> []"
    by (simp add: WithWildcard_def WithKey_def)
  from key_body_invariants [of "fst (BuildAndResetWithNamespace ?b)" ?b ?k] r w kp
  show ?thesis by simp
qed

section \<open>Rendering and parsing\<close>

lemma greedy_word_end_hit:
  "n \<noteq> 0 \<Longrightarrow> take 2 (drop n run) = ReservedNamespaceDelimiter \<Longrightarrow>
   greedy_word_end run n = Some n"
  by (cases n) simp_all

lemma FindStringSubmatch_rendered:
  assumes "L \<noteq> []" and "list_all word_char L"
  shows "namespacePattern_FindStringSubmatch (''__'' @ L @ ''__'' @ CHR '':'' # body) =
           Some (''__'' @ L @ ''__:'', ''__'' @ L @ ''__'')"
proof -
  let ?s = "''__'' @ L @ ''__'' @ CHR '':'' # body"
  have run: "takeWhile word_char (drop 2 ?s) = L @ ''__''"
  proof -
    have "drop 2 ?s = (L @ ''__'') @ CHR '':'' # body" by simp
    moreover have "takeWhile word_char ((L @ ''__'') @ CHR '':'' # body) = L @ ''__''"
      using assms(2)
      by (subst takeWhile_append2) (auto simp: list_all_iff word_char_underscore word_char_delimiter)
    ultimately show ?thesis by simp
  qed
  have g: "greedy_word_end (L @ ''__'') (length (L @ ''__'') - 2) = Some (length L)"
    using assms(1) by (simp add: greedy_word_end_hit ReservedNamespaceDelimiter_def)
  have split: "?s = (''__'' @ L @ ''__'') @ CHR '':'' # body" by simp
  have len: "length (''__'' @ L @ ''__'') = length L + 4" by simp
  have t: "take (length L + 4) ?s = ''__'' @ L @ ''__''"
    using split len by (metis append_eq_conv_conj)
  have d: "drop (length L + 4) ?s = CHR '':'' # body"
    using split len by (metis append_eq_conv_conj)
  have hp: "HasPrefix ?s ReservedNamespaceDelimiter"
    by (simp add: HasPrefix_def ReservedNamespaceDelimiter_def)
  show ?thesis
    unfolding namespacePattern_FindStringSubmatch_def Let_def run g
    using hp t d by (simp add: HasPrefix_def)
qed

lemma NewKey_plain:
  "\<not> HasPrefix ns ReservedNamespaceDelimiter \<Longrightarrow>
   NewKey k ns = \<lparr>key = k, namespace = keyNamespace ns\<rparr>"
  by (simp add: NewKey_def)

lemma RedisKey_NewKey:
  assumes "\<not> HasPrefix ns ReservedNamespaceDelimiter" and "body \<noteq> []"
  shows "RedisKey (NewKey body ns) =
           (if ns = [] then body else ''__'' @ ToLower ns @ ''__'' @ CHR '':'' # body)"
  using assms
  by (simp add: NewKey_plain RedisKey_def Build_pair keyNamespace_def ToLower_Nil_iff
      ReservedNamespaceDelimiter_def KeyFragmentDelimiter_def)

lemma parse_plain:
  assumes "Validate body = None" and "\<not> HasPrefix body ReservedNamespaceDelimiter"
  shows "ParseRedisKey body = Inr (NewKey body [])"
  using assms by (simp add: ParseRedisKey_def namespacePattern_FindStringSubmatch_def)

lemma parse_rendered:
  assumes L: "L \<noteq> []" "list_all word_char L" "\<not> HasPrefix L ReservedNamespaceDelimiter"
    and v: "Validate (''__'' @ L @ ''__'' @ CHR '':'' # body) = None"
  shows "ParseRedisKey (''__'' @ L @ ''__'' @ CHR '':'' # body) = Inr (NewKey body L)"
proof -
  have a: "TrimSuffix (TrimPrefix (''__'' @ L @ ''__'') ReservedNamespaceDelimiter)
             ReservedNamespaceDelimiter = L"
    using TrimPrefix_append [of "''__''" "L @ ''__''"] TrimSuffix_append [of L "''__''"]
    by (simp add: ReservedNamespaceDelimiter_def)
  have b: "TrimPrefix (''__'' @ L @ ''__'' @ CHR '':'' # body) (''__'' @ L @ ''__:'') = body"
    using TrimPrefix_append [of "''__'' @ L @ ''__:''" body] by simp
  show ?thesis
    unfolding ParseRedisKey_def v
    by (simp only: FindStringSubmatch_rendered [OF L(1,2)] option.case prod.case Let_def a b)
qed

lemma Validate_rendered:
  assumes "Validate body = None" "list_all word_char L"
    and "length (''__'' @ L @ ''__'' @ CHR '':'' # body) \<le> keyMaxLength"
  shows "Validate (''__'' @ L @ ''__'' @ CHR '':'' # body) = None"
  using assms word_char_allowed allowed_delimiter
  by (auto simp: Validate_None_iff HasPrefix_single HasSuffix_single KeyFragmentDelimiter_def
      list_all_iff word_char_underscore)

text \<open>
  C6, as the claim states it, fails. \<open>ParseRedisKey\<close> validates the rendered key against
  the same 1024-character limit as a key body, so a valid body of 1024 characters rendered
  under a valid namespace no longer parses.
\<close>

theorem render_parse_roundtrip_counterexample:
  "ValidateKeyFragment (replicate 1024 (CHR ''a'')) = None \<and>
   ValidateKeyFragment ''n'' = None \<and>
   ParseRedisKey (RedisKey (NewKey (replicate 1024 (CHR ''a'')) ''n'')) =
     Inl (Wrapped ''keyfactory: failed to parse redis key''
           (InvalidRedisKeyError (KeyTooLong (''__n__:'' @ replicate 1024 (CHR ''a'')))))"
proof -
  have b: "ValidateKeyFragment (replicate 1024 (CHR ''a'')) = None"
    by (simp add: ValidateKeyFragment_None_iff Validate_replicate_a reserved_replicate_a)
  have n: "ValidateKeyFragment ''n'' = None"
    by (simp add: key_eval)
  have r: "RedisKey (NewKey (replicate 1024 (CHR ''a'')) ''n'') =
             ''__n__:'' @ replicate 1024 (CHR ''a'')"
    by (simp add: RedisKey_NewKey HasPrefix_def ReservedNamespaceDelimiter_def string_eval)
  have "keyMaxLength < length (''__n__:'' @ replicate 1024 (CHR ''a''))"
    by (simp add: keyMaxLength_def)
  then have "ParseRedisKey (''__n__:'' @ replicate 1024 (CHR ''a'')) =
     Inl (Wrapped ''keyfactory: failed to parse redis key''
           (InvalidRedisKeyError (KeyTooLong (''__n__:'' @ replicate 1024 (CHR ''a'')))))"
    by (simp add: ParseRedisKey_def Validate_too_long)
  with b n r show ?thesis by simp
qed

text \<open>
  A namespace with a character outside \<open>\w\<close> is valid for the store, but the pattern of
  \<open>ParseRedisKey\<close> does not recognise its rendering: the whole rendered string comes back
  as the key body, with no namespace.
\<close>

lemma dash_namespace_not_recovered:
  "ValidateKeyFragment ''test-1'' = None \<and>
   RedisKey (NewKey ''user:1'' ''test-1'') = ''__test-1__:user:1'' \<and>
   ParseRedisKey ''__test-1__:user:1'' = Inr \<lparr>key = ''__test-1__:user:1'', namespace = []\<rparr>"
  by (simp add: key_eval)

text \<open>
  C6, amended. For every valid key body and every namespace that is empty or valid and
  made of letters, digits and underscores only, if the rendered key is at most 1024
  characters long then \<open>ParseRedisKey\<close> applied to the rendered key returns the key it was
  rendered from: the same body, and the namespace in its lower-cased, wrapped form.
\<close>

theorem render_parse_roundtrip:
  assumes body: "ValidateKeyFragment body = None"
    and ns: "ns = [] \<or> (ValidateKeyFragment ns = None \<and> list_all word_char ns)"
    and len: "length (RedisKey (NewKey body ns)) \<le> keyMaxLength"
  shows "ParseRedisKey (RedisKey (NewKey body ns)) = Inr (NewKey body ns) \<and>
         NewKey body ns = \<lparr>key = body, namespace = keyNamespace ns\<rparr>"
proof -
  from body have bv: "Validate body = None" and bp: "\<not> HasPrefix body ReservedNamespaceDelimiter"
    by (simp_all add: ValidateKeyFragment_None_iff)
  from bv have bne: "body \<noteq> []" by (simp add: Validate_None_iff)
  show ?thesis
  proof (cases "ns = []")
    case True
    then have "RedisKey (NewKey body ns) = body"
      using bne by (simp add: RedisKey_NewKey HasPrefix_def ReservedNamespaceDelimiter_def)
    then show ?thesis
      using True parse_plain [OF bv bp]
      by (simp add: NewKey_plain HasPrefix_def ReservedNamespaceDelimiter_def)
  next
    case False
    with ns have np: "\<not> HasPrefix ns ReservedNamespaceDelimiter" and nw: "list_all word_char ns"
      by (simp_all add: ValidateKeyFragment_None_iff)
    let ?L = "ToLower ns"
    have r: "RedisKey (NewKey body ns) = ''__'' @ ?L @ ''__'' @ CHR '':'' # body"
      using False np bne by (simp add: RedisKey_NewKey)
    have L: "?L \<noteq> []" "list_all word_char ?L" "\<not> HasPrefix ?L ReservedNamespaceDelimiter"
      using False nw np
      by (simp_all add: ToLower_Nil_iff list_all_word_ToLower HasPrefix_ToLower_reserved)
    have v: "Validate (''__'' @ ?L @ ''__'' @ CHR '':'' # body) = None"
      using Validate_rendered [OF bv L(2)] len r by simp
    have "NewKey body ?L = NewKey body ns"
      using np L(3) False by (simp add: NewKey_plain keyNamespace_def ToLower_idem ToLower_Nil_iff)
    then show ?thesis using parse_rendered [OF L v] r np by (simp add: NewKey_plain)
  qed
qed

theorem render_parse_roundtrip_witness:
  "ValidateKeyFragment ''user:1'' = None \<and>
   (ValidateKeyFragment ''App_1'' = None \<and> list_all word_char ''App_1'') \<and>
   length (RedisKey (NewKey ''user:1'' ''App_1'')) \<le> keyMaxLength \<and>
   RedisKey (NewKey ''user:1'' ''App_1'') = ''__app_1__:user:1'' \<and>
   ParseRedisKey ''__app_1__:user:1'' = Inr \<lparr>key = ''user:1'', namespace = ''__app_1__''\<rparr>"
proof -
  have b: "ValidateKeyFragment ''user:1'' = None"
    by (simp add: key_eval)
  have n: "ValidateKeyFragment ''App_1'' = None \<and> list_all word_char ''App_1''"
    by (simp add: key_eval)
  have r: "RedisKey (NewKey ''user:1'' ''App_1'') = ''__app_1__:user:1''"
    by (simp add: key_eval)
  have k: "keyNamespace ''App_1'' = ''__app_1__''"
    by (simp add: key_eval)
  have l: "length (RedisKey (NewKey ''user:1'' ''App_1'')) \<le> keyMaxLength"
    by (simp add: r) (simp add: keyMaxLength_def)
  from render_parse_roundtrip [of "''user:1''" "''App_1''"] b n l r k show ?thesis by simp
qed

section \<open>The entity store: empty inputs, nil keys and flush\<close>

lemma build_empty_key_fails:
  "b_key b = [] \<Longrightarrow> b_parentKey b = [] \<Longrightarrow> b_wildcard b = [] \<Longrightarrow> isl (build b)"
  by (simp add: build_def Build_pair split: option.splits)

text \<open>
  C1, amended. For every store and every state of the server: \<open>Remove\<close>, \<open>Get\<close> and
  \<open>Exists\<close> called with the empty key, and \<open>GetByKeys\<close> and \<open>RemoveByKeys\<close> called with
  an empty key slice, return no error and a nil or empty result (\<open>false\<close> for \<open>Exists\<close>) and
  leave the world as it was: no command is sent and nothing is emitted. \<open>Add\<close> called with
  an entity whose derived key is empty returns an error, and also leaves the world as it
  was.
\<close>

theorem empty_input_no_ops:
  "Remove es [] w = (Ok (), w) \<and>
   es_Get es [] w = (Ok None, w) \<and>
   es_Exists es [] w = (Ok False, w) \<and>
   GetByKeys es [] w = (Ok [], w) \<and>
   RemoveByKeys es [] w = (Ok (), w) \<and>
   (GetKey es entity = [] \<longrightarrow>
      is_Err (fst (Add es entity expiration w)) \<and> snd (Add es entity expiration w) = w)"
proof -
  have "is_Err (fst (Add es entity expiration w)) \<and> snd (Add es entity expiration w) = w"
    if "GetKey es entity = []"
  proof -
    have "isl (build (WithKey (GetKey es entity) (es_NewKeyBuilder es)))"
      using that
      by (intro build_empty_key_fails)
         (simp_all add: WithKey_def es_NewKeyBuilder_def NewKeyBuilderWithNamespace_def)
    then show ?thesis
      by (auto simp: Add_def BuildAndResetWithNamespace_def Let_def split: sum.splits)
  qed
  then show ?thesis
    by (simp add: Remove_def es_Get_def es_Exists_def GetByKeys_def RemoveByKeys_def)
qed

text \<open>The amended statement at the example store, for an entity with the empty key.\<close>

theorem empty_input_no_ops_witness:
  "GetKey example_store [] = [] \<and>
   Add example_store [] 0 empty_world = (Err EmptyKeyError, empty_world) \<and>
   es_Get example_store [] empty_world = (Ok None, empty_world)"
proof -
  have a: "Add example_store [] 0 empty_world = (Err EmptyKeyError, empty_world)"
    by (simp add: store_eval)
  have g: "GetKey example_store [] = []"
    by (simp add: example_store_def)
  from empty_input_no_ops [of example_store empty_world "[]" 0] a g show ?thesis by simp
qed

text \<open>
  C1, as the claim states it, fails for \<open>Add\<close>: the key builder rejects an empty key, and
  \<open>Add\<close> has no guard before it, so the call returns the builder's error.
\<close>

theorem Add_empty_key_counterexample:
  "GetKey example_store [] = [] \<and>
   Add example_store [] 0 empty_world = (Err EmptyKeyError, empty_world)"
  by (simp add: store_eval)

text \<open>
  C10. The claim does not hold of the code: the loop of \<open>GetByKeys\<close> skips an empty entity
  key but leaves its slot of the key slice nil, the slice goes to \<open>GetMulti\<close> as it is, and
  \<open>GetMulti\<close> calls \<open>RedisKey\<close> on the nil entry. With one empty and one non-empty key the
  call panics before any command is sent.
\<close>

theorem GetByKeys_mixed_empty_key_panics:
  "GetByKeys example_store ['''', ''user:1''] empty_world = (Panic nil_dereference, empty_world)"
  by (simp add: store_eval)

text \<open>
  C2. The claim does not hold of the code: with only a wildcard set, the builder yields the
  key body \<open>:*\<close>, which \<open>RedisKey\<close> joins to the namespace with a second delimiter. The
  pattern sent is \<open>__ns__::*\<close>, and no key the store writes (\<open>__ns__:\<close> followed by a body
  that does not start with the delimiter) matches it. After \<open>Add\<close> of one entity, \<open>flush\<close>
  succeeds, emits \<open>EntitiesFlushed\<close>, sends no \<open>DEL\<close>, and the entity's key is still in the
  table.
\<close>

theorem flush_leaves_store_keys:
  "Add example_store ''user:1'' 0 empty_world =
     (Ok ''user:1'',
      \<lparr>kv = [(''__ns__:user:1'', ''user:1'')], refuses = (\<lambda>c. False),
        trace = [Sent (SET ''__ns__:user:1'' ''user:1'' 0), Emitted EntitiesAdded [''user:1'']]\<rparr>) \<and>
   flush example_store
     \<lparr>kv = [(''__ns__:user:1'', ''user:1'')], refuses = (\<lambda>c. False),
       trace = [Sent (SET ''__ns__:user:1'' ''user:1'' 0), Emitted EntitiesAdded [''user:1'']]\<rparr> =
     (Ok (),
      \<lparr>kv = [(''__ns__:user:1'', ''user:1'')], refuses = (\<lambda>c. False),
        trace = [Sent (SET ''__ns__:user:1'' ''user:1'' 0), Emitted EntitiesAdded [''user:1''],
                 Sent (KEYS ''__ns__::*''), Emitted EntitiesFlushed []]\<rparr>)"
  by (simp add: store_eval)

text \<open>With an empty namespace \<open>flush\<close> panics, whatever the state of the server.\<close>

lemma flush_without_namespace:
  "es_namespace es = [] \<Longrightarrow>
   flush es w = (Panic ''flush store called without key namespace set'', w)"
  by (simp add: flush_def)

section \<open>Pagination\<close>

lemma RedisKeys_Some: "RedisKeys (map Some ks) = Some (map RedisKey ks)"
  by (induction ks) simp_all

lemma GetMulti_trace:
  "trace (snd (GetMulti (map Some ks) w)) =
     trace w @ (if ks = [] then [] else [Sent (MGET (map RedisKey ks))])"
  by (simp add: GetMulti_def RedisKeys_Some rs_MGet_def send_def Let_def)

lemma GetKeysWithCursor_trace:
  "trace (snd (GetKeysWithCursor cursor limit keyMatch w)) =
     trace w @ [Sent (SCAN cursor (RedisKey keyMatch) (if limit \<le> 0 \<or> limit > 1000 then 1000 else limit))]"
  by (simp add: GetKeysWithCursor_def rs_Scan_def send_def Let_def split: sum.splits)

lemma scans_append: "scans (xs @ ys) = scans xs @ scans ys"
  by (induction xs rule: scans.induct) simp_all

lemma GetWithPagination_trace:
  assumes "build (scope_builder es parentKey) = Inr keyMatch"
  shows "\<exists>more. trace (snd (GetWithPagination es cursor limit parentKey w)) =
           trace w @ Sent (SCAN cursor (RedisKey keyMatch)
                       (if limit \<le> 0 \<or> limit \<ge> 1000 then 1000 else limit)) # more \<and>
           scans more = []"
proof -
  let ?l = "if limit \<le> 0 \<or> limit \<ge> 1000 then 1000 else limit"
  have l: "(if ?l \<le> 0 \<or> ?l > 1000 then 1000 else ?l) = ?l" by simp
  obtain r w1 where g: "GetKeysWithCursor cursor ?l keyMatch w = (r, w1)"
    by (cases "GetKeysWithCursor cursor ?l keyMatch w")
  have t1: "trace w1 = trace w @ [Sent (SCAN cursor (RedisKey keyMatch) ?l)]"
    using GetKeysWithCursor_trace [of cursor ?l keyMatch w] g l by simp
  show ?thesis
  proof (cases r)
    case (Ok p)
    obtain keys nextCursor where p: "p = (keys, nextCursor)" by (cases p)
    show ?thesis
    proof (cases "keys = []")
      case True
      then show ?thesis
        using assms g Ok p t1
        by (simp add: GetWithPagination_def BuildAndResetWithNamespace_def Let_def)
    next
      case False
      obtain r2 w2 where m: "GetMulti (map Some keys) w1 = (r2, w2)"
        by (cases "GetMulti (map Some keys) w1")
      have t2: "trace w2 = trace w1 @ [Sent (MGET (map RedisKey keys))]"
        using GetMulti_trace [of keys w1] m False by simp
      have "snd (GetWithPagination es cursor limit parentKey w) = w2"
        using assms g Ok p False m
        by (simp add: GetWithPagination_def BuildAndResetWithNamespace_def Let_def
            split: result.splits sum.splits)
      then show ?thesis using t1 t2 by simp
    qed
  next
    case (Err e)
    then show ?thesis
      using assms g t1
      by (simp add: GetWithPagination_def BuildAndResetWithNamespace_def Let_def)
  next
    case (Panic m)
    then show ?thesis
      using assms g t1
      by (simp add: GetWithPagination_def BuildAndResetWithNamespace_def Let_def)
  qed
qed

text \<open>
  C9. For every call of \<open>GetWithPagination\<close>: if the scope key does not build, no \<open>SCAN\<close> is
  sent; otherwise exactly one \<open>SCAN\<close> is sent, with the caller's cursor, the scope pattern,
  and a count of 1000 if the limit is at most 0 or at least 1000 and the caller's limit
  otherwise.
\<close>

theorem pagination_limit_clamp:
  "scans (drop (length (trace w)) (trace (snd (GetWithPagination es cursor limit parentKey w)))) =
     (case build (scope_builder es parentKey) of
        Inl e \<Rightarrow> []
      | Inr keyMatch \<Rightarrow>
          [(cursor, RedisKey keyMatch, if limit \<le> 0 \<or> limit \<ge> 1000 then 1000 else limit)])"
proof (cases "build (scope_builder es parentKey)")
  case (Inl e)
  then show ?thesis
    by (simp add: GetWithPagination_def BuildAndResetWithNamespace_def Let_def)
next
  case (Inr keyMatch)
  from GetWithPagination_trace [OF Inr, of cursor limit w] obtain more where
    "trace (snd (GetWithPagination es cursor limit parentKey w)) =
       trace w @ Sent (SCAN cursor (RedisKey keyMatch)
                   (if limit \<le> 0 \<or> limit \<ge> 1000 then 1000 else limit)) # more"
    and "scans more = []" by blast
  then show ?thesis using Inr by simp
qed

section \<open>Batches\<close>

lemma builder_reset:
  "ResetKeepNamespace (WithKey k (es_NewKeyBuilder es)) = es_NewKeyBuilder es"
  by (simp add: ResetKeepNamespace_def WithKey_def es_NewKeyBuilder_def NewKeyBuilderWithNamespace_def)

lemma BuildAndReset_store:
  "BuildAndResetWithNamespace (WithKey k (es_NewKeyBuilder es)) =
     (build (WithKey k (es_NewKeyBuilder es)), es_NewKeyBuilder es)"
  by (simp add: BuildAndResetWithNamespace_def builder_reset)

lemma build_single:
  "build (WithKey k (es_NewKeyBuilder es)) = Inr x \<Longrightarrow> x = NewKey k (es_namespace es) \<and> k \<noteq> []"
  by (auto simp: build_Inr_iff WithKey_def es_NewKeyBuilder_def NewKeyBuilderWithNamespace_def
      Build_pair)

lemma AddBatch_loop_fails:
  "list_ex (entity_fails es) entities \<Longrightarrow>
   isl (AddBatch_loop es entities (es_NewKeyBuilder es) acc)"
proof (induction entities arbitrary: acc)
  case Nil
  then show ?case by simp
next
  case (Cons entity rest)
  obtain keys entityKeys data where acc: "acc = (keys, entityKeys, data)"
    by (cases acc)
  show ?case
  proof (cases "entity_fails es entity")
    case True
    then show ?thesis
      by (auto simp: acc entity_fails_def BuildAndReset_store split: sum.splits)
  next
    case False
    with Cons.prems have "list_ex (entity_fails es) rest" by simp
    from Cons.IH [OF this] show ?thesis
      by (simp add: acc BuildAndReset_store split: sum.splits)
  qed
qed

text \<open>
  C4. For every entity slice passed to \<open>AddBatch\<close>, if the key of any entity of the slice
  does not build or any entity fails to serialise, \<open>AddBatch\<close> returns an error and leaves
  the world as it was: no command was sent, the table is unchanged and nothing was
  emitted.
\<close>

theorem AddBatch_all_or_nothing:
  assumes "list_ex (entity_fails es) entities"
  shows "is_Err (fst (AddBatch es entities expiration w)) \<and>
         snd (AddBatch es entities expiration w) = w"
proof -
  from assms have "entities \<noteq> []" by auto
  moreover have "isl (AddBatch_loop es entities (es_NewKeyBuilder es) ([], [], []))"
    using assms by (rule AddBatch_loop_fails)
  then obtain e where "AddBatch_loop es entities (es_NewKeyBuilder es) ([], [], []) = Inl e"
    by (cases "AddBatch_loop es entities (es_NewKeyBuilder es) ([], [], [])") auto
  ultimately show ?thesis by (simp add: AddBatch_def)
qed

text \<open>A batch of three whose second entity has a key with the reserved prefix.\<close>

theorem AddBatch_all_or_nothing_witness:
  "list_ex (entity_fails example_store) [''user:1'', ''__user:2'', ''user:3''] \<and>
   AddBatch example_store [''user:1'', ''__user:2'', ''user:3''] 0 empty_world =
     (Err (Wrapped ''keyfactory'' (ReservedPrefixError ''__user:2'')), empty_world)"
proof -
  have h: "list_ex (entity_fails example_store) [''user:1'', ''__user:2'', ''user:3'']"
    by (simp add: entity_fails_def store_eval)
  have r: "AddBatch example_store [''user:1'', ''__user:2'', ''user:3''] 0 empty_world =
     (Err (Wrapped ''keyfactory'' (ReservedPrefixError ''__user:2'')), empty_world)"
    by (simp add: store_eval)
  from AddBatch_all_or_nothing [OF h, of 0 empty_world] h r show ?thesis by simp
qed

section \<open>Lifecycle events\<close>


















text \<open>
  A server that refuses every command: \<open>Add\<close> sends its \<open>SET\<close>, returns the error and emits
  nothing.
\<close>

lemma refused_write_emits_nothing:
  "Add example_store ''user:1'' 0 (empty_world\<lparr>refuses := (\<lambda>c. True)\<rparr>) =
     (Err (Wrapped ''datastore: failed to write key'' (RedisError ''command refused'')),
      empty_world\<lparr>refuses := (\<lambda>c. True), trace := [Sent (SET ''__ns__:user:1'' ''user:1'' 0)]\<rparr>)"
  by (simp add: store_eval)

section \<open>Flush patterns and nil keys in general\<close>

lemma glob_match_literal_prefix:
  "glob_literal lit \<Longrightarrow>
   glob_match (lit @ p) s \<longleftrightarrow> take (length lit) s = lit \<and> glob_match p (drop (length lit) s)"
proof (induction lit arbitrary: s)
  case Nil
  then show ?case by simp
next
  case (Cons c lit)
  then have l: "glob_literal lit" and c: "c \<noteq> CHR ''*''" "c \<noteq> CHR ''?''"
    by (simp_all add: glob_literal_def)
  show ?case
  proof (cases s)
    case Nil
    then show ?thesis using c by simp
  next
    case (Cons d ds)
    then show ?thesis using c Cons.IH [OF l, of ds] by auto
  qed
qed

lemma toLowerChar_glob: "toLowerChar c = CHR ''*'' \<longleftrightarrow> c = CHR ''*''" "toLowerChar c = CHR ''?'' \<longleftrightarrow> c = CHR ''?''"
  by (auto simp: toLowerChar_def lower_letters_def upper_letters_def split: if_splits)

lemma glob_literal_ToLower: "glob_literal ns \<Longrightarrow> glob_literal (ToLower ns)"
  by (simp add: glob_literal_def ToLower_def list_all_iff toLowerChar_glob)

text \<open>
  The pattern \<open>flush\<close> sends, for any store with a namespace: the wrapped namespace, two
  delimiters and the wildcard.
\<close>

lemma flush_pattern:
  assumes "build (WithWildcard WildcardAnyString (es_NewKeyBuilder es)) = Inr keyMatch"
    and "es_namespace es \<noteq> []"
  shows "RedisKey keyMatch = (''__'' @ ToLower (es_namespace es) @ ''__::'') @ ''*''"
proof -
  from assms(1) have v: "validateOptionalKeys [[], [], es_namespace es] = None"
    and k: "keyMatch = NewKey '':*'' (es_namespace es)"
    by (simp_all add: build_Inr_iff WithWildcard_def es_NewKeyBuilder_def
        NewKeyBuilderWithNamespace_def Build_pair WildcardAnyString_def KeyFragmentDelimiter_def)
  from v assms(2) have "\<not> HasPrefix (es_namespace es) ReservedNamespaceDelimiter"
    by (simp add: validateOptionalKeys3)
  then show ?thesis using k assms(2) by (simp add: RedisKey_NewKey)
qed

text \<open>
  For a namespace without wildcard characters, the pattern of \<open>flush\<close> matches none of
  the keys under which the store keeps its entities, so \<open>KEYS\<close> never lists one of them
  for deletion.
\<close>

lemma flush_pattern_misses_store_keys:
  assumes m: "build (WithWildcard WildcardAnyString (es_NewKeyBuilder es)) = Inr keyMatch"
    and ns: "es_namespace es \<noteq> []" "glob_literal (es_namespace es)"
    and k: "build (WithKey k (es_NewKeyBuilder es)) = Inr x"
  shows "\<not> glob_match (RedisKey keyMatch) (RedisKey x)"
proof -
  let ?L = "ToLower (es_namespace es)"
  let ?lit = "''__'' @ ?L @ ''__::''"
  have lit: "glob_literal ?lit"
    using glob_literal_ToLower [OF ns(2)] by (simp add: glob_literal_def)
  from build_single [OF k] have x: "x = NewKey k (es_namespace es)" and kne: "k \<noteq> []" by simp_all
  from k have v: "validateOptionalKeys [k, [], es_namespace es] = None"
    by (simp add: build_Inr_iff WithKey_def es_NewKeyBuilder_def NewKeyBuilderWithNamespace_def)
  with kne ns(1) have kv: "Validate k = None"
    and np: "\<not> HasPrefix (es_namespace es) ReservedNamespaceDelimiter"
    by (simp_all add: validateOptionalKeys3)
  from kv have hd: "hd k \<noteq> CHR '':''"
    using kne by (simp add: Validate_None_iff HasPrefix_single KeyFragmentDelimiter_def)
  have r: "RedisKey x = (''__'' @ ?L @ ''__:'') @ k"
    using x np kne ns(1) by (simp add: RedisKey_NewKey)
  have "take (length ?lit) (RedisKey x) \<noteq> ?lit"
  proof
    assume "take (length ?lit) (RedisKey x) = ?lit"
    then have "take (length (''__'' @ ?L @ ''__:'') + 1) ((''__'' @ ?L @ ''__:'') @ k) =
                 (''__'' @ ?L @ ''__:'') @ '':''"
      unfolding r by simp
    then have "take 1 k = '':''"
      by (simp del: append_assoc add: take_Suc_conv_app_nth)
    with hd kne show False by (cases k) simp_all
  qed
  then show ?thesis
    unfolding flush_pattern [OF m ns(1)] glob_match_literal_prefix [OF lit] by simp
qed

lemma GetByKeys_loop_nil:
  "GetByKeys_loop entityKeys kb keys = Inr keys' \<Longrightarrow>
   set keys \<subseteq> set keys' \<and> ([] \<in> set entityKeys \<longrightarrow> None \<in> set keys')"
proof (induction entityKeys arbitrary: kb keys)
  case Nil
  then show ?case by simp
next
  case (Cons eKey rest)
  show ?case
  proof (cases "eKey = []")
    case True
    with Cons.prems have "GetByKeys_loop rest kb (keys @ [None]) = Inr keys'" by simp
    from Cons.IH [OF this] show ?thesis by auto
  next
    case False
    with Cons.prems obtain k kb' where
      "GetByKeys_loop rest kb' (keys @ [Some k]) = Inr keys'"
      by (auto split: prod.splits sum.splits)
    from Cons.IH [OF this] False show ?thesis by auto
  qed
qed

lemma RedisKeys_nil: "None \<in> set keys \<Longrightarrow> RedisKeys keys = None"
  by (induction keys rule: RedisKeys.induct) auto

text \<open>
  Whenever the key list of \<open>GetByKeys\<close> contains an empty key, the call either returns the
  key error of another entry or panics; it never returns entities, and it sends nothing.
\<close>

lemma GetByKeys_with_empty_key:
  assumes "[] \<in> set entityKeys"
  shows "GetByKeys es entityKeys w =
           (case GetByKeys_loop entityKeys (es_NewKeyBuilder es) [] of
              Inl e \<Rightarrow> (Err e, w)
            | Inr keys \<Rightarrow> (Panic nil_dereference, w))"
proof (cases "GetByKeys_loop entityKeys (es_NewKeyBuilder es) []")
  case (Inl e)
  then show ?thesis using assms by (auto simp: GetByKeys_def)
next
  case (Inr keys)
  from GetByKeys_loop_nil [OF Inr] assms have n: "None \<in> set keys" by simp
  then have "keys \<noteq> []" by auto
  then show ?thesis
    using Inr assms RedisKeys_nil [OF n] by (auto simp: GetByKeys_def GetMulti_def)
qed

section \<open>The event emitter\<close>





















end
